theory Spec2Isabelle
  imports Complex_Main
begin

section \<open>Data model\<close>

text \<open>
  The histogram functions of \<^verbatim>\<open>Histogram.hpp\<close>, as HOL functions.

  Numbers. A number of the program is a real number, and a result of floating-point
  arithmetic is a \<open>float_result\<close>: a real number, an infinity or NaN. \<^verbatim>\<open>float\<close> and
  \<^verbatim>\<open>double\<close> are the formats binary32 and binary64 of IEEE 754. Every operation that
  \<^verbatim>\<open>ScalarHistogram\<close> performs in one of them is the exact operation followed by the
  rounding of the format (\<open>float32\<close>, \<open>float64\<close>): to nearest, ties to even, with
  subnormal numbers and with overflow to an infinity. An operation is evaluated in the
  type that the usual arithmetic conversions give its operands, without excess
  precision. The two zeros of a format are one number here; \<^verbatim>\<open>ScalarHistogram\<close> never
  divides by a zero bin width, and the conversion to \<^verbatim>\<open>int\<close> gives 0 for both. The
  samples and the two ends of the range are numbers of the sample type, not NaN or an
  infinity.

  The sample type. The template parameter \<^verbatim>\<open>TValue\<close> of \<^verbatim>\<open>ScalarHistogram\<close> is one of the
  five types of \<open>TValue\<close> below. The type decides how the source subtracts two samples
  (\<open>subtract\<close>) and in which format it divides the difference (\<open>divide_by_float\<close>).

  Undefined behaviour. Where the C++ standard gives the program no meaning, the model
  stops with the error \<open>undefined_behaviour\<close>: the overflow of a subtraction of two
  \<^verbatim>\<open>int\<close>, the conversion to \<^verbatim>\<open>int\<close> of NaN, an infinity or a number outside the range of
  \<^verbatim>\<open>int\<close> (32 bits), and the access to the last of no bins.

  What is left exact. The counters in the bins are real numbers and \<^verbatim>\<open>++\<close> adds
  exactly one; in the source a \<^verbatim>\<open>float\<close> counter stops growing at \<open>2^24\<close>. The sums and
  the quotient of \<^verbatim>\<open>HistogramIntersection\<close> are exact as well.

  \<^verbatim>\<open>HistogramType\<close> is declared in \<^verbatim>\<open>Histogram.h\<close>, which is not among the sources. The
  comment at the head of \<^verbatim>\<open>ScalarHistogram\<close> says the counts are stored as floats, so
  a histogram is a list of reals.
\<close>

type_synonym HistogramType = "real list"

subsection \<open>The floating-point formats\<close>

datatype float_result = Finite real | PlusInfinity | MinusInfinity | NaN

text \<open>The integer nearest to \<open>y\<close>; of two equally near integers, the even one.\<close>

definition round_half_even :: "real \<Rightarrow> int" where
  "round_half_even y =
     (let f = \<lfloor>y\<rfloor>; d = y - of_int f
      in if d < 1 / 2 then f else if 1 / 2 < d then f + 1 else if even f then f else f + 1)"

text \<open>
  The exponent of \<open>a \<ge> 0\<close> in a format whose exponents go from \<open>emin\<close> to
  \<open>emin + k\<close>: the largest \<open>e\<close> of these with \<open>2^e \<le> a\<close>, and \<open>emin\<close> when there is none
  (then \<open>a\<close> is subnormal or zero).
\<close>

fun exponent_search :: "nat \<Rightarrow> int \<Rightarrow> real \<Rightarrow> int" where
  "exponent_search k emin a =
     (if k = 0 then emin
      else if 2 powi (emin + int k) \<le> a then emin + int k
      else exponent_search (k - 1) emin a)"

declare exponent_search.simps [simp del]

text \<open>
  The rounding of the real number \<open>x\<close> into the binary format with \<open>p\<close> significant bits
  and exponents from \<open>emin\<close> to \<open>emax\<close>. The numbers of the format with the exponent \<open>e\<close>
  of \<open>x\<close> are the multiples of \<open>ulp = 2^(e - p + 1)\<close>; \<open>x\<close> goes to the nearest of them,
  and a result of \<open>2^(emax + 1)\<close> or more is an infinity.
\<close>

definition round_to :: "nat \<Rightarrow> int \<Rightarrow> int \<Rightarrow> real \<Rightarrow> float_result" where
  "round_to p emin emax x =
     (let a = \<bar>x\<bar>;
          e = exponent_search (nat (emax - emin)) emin a;
          ulp = 2 powi (e - int p + 1);
          r = of_int (round_half_even (a / ulp)) * ulp
      in if 2 powi (emax + 1) \<le> r then (if 0 < x then PlusInfinity else MinusInfinity)
         else Finite (if x < 0 then - r else r))"

text \<open>\<^verbatim>\<open>float\<close> is binary32 and \<^verbatim>\<open>double\<close> is binary64.\<close>

definition float32 :: "real \<Rightarrow> float_result" where
  "float32 x = round_to 24 (- 126) 127 x"

definition float64 :: "real \<Rightarrow> float_result" where
  "float64 x = round_to 53 (- 1022) 1023 x"

text \<open>
  The conversion of a value into the format with the rounding \<open>rnd\<close>; an infinity and
  NaN stay what they are.
\<close>

definition convert :: "(real \<Rightarrow> float_result) \<Rightarrow> float_result \<Rightarrow> float_result" where
  "convert rnd x = (case x of Finite a \<Rightarrow> rnd a | _ \<Rightarrow> x)"

text \<open>
  The division \<^verbatim>\<open>x / y\<close> in the format with the rounding \<open>rnd\<close>. A number divided by zero
  is an infinity, and NaN when the number is zero itself; a number divided by an
  infinity is zero; an infinity divided by a number is an infinity, and divided by an
  infinity it is NaN.
\<close>

definition divide_in :: "(real \<Rightarrow> float_result) \<Rightarrow> float_result \<Rightarrow> float_result \<Rightarrow> float_result" where
  "divide_in rnd x y =
     (case x of
        NaN \<Rightarrow> NaN
      | Finite a \<Rightarrow>
          (case y of
             NaN \<Rightarrow> NaN
           | Finite b \<Rightarrow>
               if b \<noteq> 0 then rnd (a / b)
               else if 0 < a then PlusInfinity
               else if a < 0 then MinusInfinity
               else NaN
           | _ \<Rightarrow> Finite 0)
      | PlusInfinity \<Rightarrow>
          (case y of Finite b \<Rightarrow> if 0 \<le> b then PlusInfinity else MinusInfinity | _ \<Rightarrow> NaN)
      | MinusInfinity \<Rightarrow>
          (case y of Finite b \<Rightarrow> if 0 \<le> b then MinusInfinity else PlusInfinity | _ \<Rightarrow> NaN))"

subsection \<open>The sample type and the errors\<close>

text \<open>
  The types at which the template is read. A sample of type \<^verbatim>\<open>unsigned char\<close> is one of
  the numbers 0 .. 255, an \<^verbatim>\<open>int\<close> is a whole number from \<open>-2^31\<close> to \<open>2^31 - 1\<close>, an
  \<^verbatim>\<open>unsigned int\<close> a whole number from 0 to \<open>2^32 - 1\<close>.
\<close>

datatype TValue = T_unsigned_char | T_int | T_unsigned_int | T_float | T_double

text \<open>
  The \<^verbatim>\<open>std::runtime_error\<close> thrown by \<^verbatim>\<open>ScalarHistogram\<close> carries a message built from
  seven quantities. The model keeps the quantities, in the order the message prints
  them, instead of the formatted text; the range and the sample are kept as they are,
  before the cast to \<^verbatim>\<open>float\<close> that the message applies.
\<close>

record diagnostic =
  diag_bin :: int
  diag_size :: nat
  diag_rangeMin :: real
  diag_rangeMax :: real
  diag_i :: nat
  diag_value :: real
  diag_binWidth :: float_result

text \<open>
  \<open>runtime_error\<close> is the exception of the source; \<open>undefined_behaviour\<close> is a step
  that the language leaves without meaning.
\<close>

datatype error = runtime_error diagnostic | undefined_behaviour

section \<open>ScalarHistogram\<close>

text \<open>
  The difference \<^verbatim>\<open>a - b\<close> of two values of the sample type. Two \<^verbatim>\<open>unsigned char\<close> are
  promoted to \<^verbatim>\<open>int\<close> and subtracted exactly. The difference of two \<^verbatim>\<open>int\<close> is exact
  when it is an \<^verbatim>\<open>int\<close>, and undefined otherwise. The difference of two
  \<^verbatim>\<open>unsigned int\<close> is taken modulo \<open>2^32\<close>. The difference of two \<^verbatim>\<open>float\<close> or two
  \<^verbatim>\<open>double\<close> is rounded in their format.
\<close>

definition subtract :: "TValue \<Rightarrow> real \<Rightarrow> real \<Rightarrow> error + float_result" where
  "subtract ty a b =
     (case ty of
        T_unsigned_char \<Rightarrow> Inr (Finite (a - b))
      | T_int \<Rightarrow>
          if - (2 ^ 31) \<le> a - b \<and> a - b < 2 ^ 31 then Inr (Finite (a - b))
          else Inl undefined_behaviour
      | T_unsigned_int \<Rightarrow> Inr (Finite (if b \<le> a then a - b else a - b + 2 ^ 32))
      | T_float \<Rightarrow> Inr (float32 (a - b))
      | T_double \<Rightarrow> Inr (float64 (a - b)))"

text \<open>
  The division of such a difference \<open>x\<close> by the \<^verbatim>\<open>float\<close> \<open>f\<close>. A \<^verbatim>\<open>double\<close> is divided in
  \<^verbatim>\<open>double\<close>. A \<^verbatim>\<open>float\<close> is divided in \<^verbatim>\<open>float\<close>, and an integer is converted to \<^verbatim>\<open>float\<close>
  first.
\<close>

definition divide_by_float :: "TValue \<Rightarrow> float_result \<Rightarrow> float_result \<Rightarrow> float_result" where
  "divide_by_float ty x f =
     (case ty of
        T_double \<Rightarrow> divide_in float64 x f
      | T_float \<Rightarrow> divide_in float32 x f
      | _ \<Rightarrow> divide_in float32 (convert float32 x) f)"

text \<open>
  Line 75: \<^verbatim>\<open>const float binWidth = (rangeMax - rangeMin) / static_cast<float>(numberOfBins)\<close>.
  The number of bins is converted to \<^verbatim>\<open>float\<close>, and the quotient is stored in a
  \<^verbatim>\<open>float\<close>, which rounds it once more when the division was one of \<^verbatim>\<open>double\<close>.
\<close>

definition ScalarHistogram_binWidth :: "TValue \<Rightarrow> nat \<Rightarrow> real \<Rightarrow> real \<Rightarrow> error + float_result" where
  "ScalarHistogram_binWidth ty numberOfBins rangeMin rangeMax =
     (case subtract ty rangeMax rangeMin of
        Inl e \<Rightarrow> Inl e
      | Inr d \<Rightarrow>
          let q = divide_by_float ty d (float32 (real numberOfBins))
          in Inr (if ty = T_double then convert float32 q else q))"

text \<open>
  Line 77: \<^verbatim>\<open>fabs(binWidth - 0.0f) < 1e-6\<close>. The comparison is one of \<^verbatim>\<open>double\<close>, and it is
  false for an infinity and for NaN. No \<^verbatim>\<open>float\<close> lies between the \<^verbatim>\<open>double\<close> nearest to
  \<open>1e-6\<close> and \<open>1e-6\<close> itself, so the test is the one against the exact bound.
\<close>

definition near_zero :: "float_result \<Rightarrow> bool" where
  "near_zero binWidth = (case binWidth of Finite w \<Rightarrow> \<bar>w - 0\<bar> < 1 / 1000000 | _ \<Rightarrow> False)"

text \<open>
  The conversion of a floating-point value to \<^verbatim>\<open>int\<close> discards the fractional part; it
  is undefined when the result is no \<^verbatim>\<open>int\<close>.
\<close>

definition truncate_toward_zero :: "real \<Rightarrow> int" where
  "truncate_toward_zero x = (if 0 \<le> x then \<lfloor>x\<rfloor> else - \<lfloor>- x\<rfloor>)"

definition float_to_int :: "float_result \<Rightarrow> error + int" where
  "float_to_int q =
     (case q of
        Finite a \<Rightarrow>
          if - (2 ^ 31) \<le> truncate_toward_zero a \<and> truncate_toward_zero a < 2 ^ 31
          then Inr (truncate_toward_zero a)
          else Inl undefined_behaviour
      | _ \<Rightarrow> Inl undefined_behaviour)"

text \<open>Line 93: \<^verbatim>\<open>int bin = (values[i] - rangeMin) / binWidth\<close>.\<close>

definition bin_index :: "TValue \<Rightarrow> real \<Rightarrow> real \<Rightarrow> float_result \<Rightarrow> error + int" where
  "bin_index ty v rangeMin binWidth =
     (case subtract ty v rangeMin of
        Inl e \<Rightarrow> Inl e
      | Inr d \<Rightarrow> float_to_int (divide_by_float ty d binWidth))"

text \<open>
  The body of the \<^verbatim>\<open>for\<close> loop, for the sample at index \<open>i\<close>: the new bins, or the
  error that ends the function. The comparison \<^verbatim>\<open>bin >= numberOfBins\<close> is reached with
  \<open>bin \<ge> 0\<close> only, so the conversion of \<open>bin\<close> to \<^verbatim>\<open>unsigned int\<close> that it implies
  changes nothing.
\<close>

definition ScalarHistogram_body ::
  "TValue \<Rightarrow> real list \<Rightarrow> nat \<Rightarrow> real \<Rightarrow> real \<Rightarrow> float_result \<Rightarrow> nat \<Rightarrow> HistogramType
     \<Rightarrow> error + HistogramType"
where
  "ScalarHistogram_body ty values numberOfBins rangeMin rangeMax binWidth i bins =
     (if values ! i = rangeMax then
        if bins = [] then Inl undefined_behaviour
        else Inr (bins[length bins - 1 := bins ! (length bins - 1) + 1])
      else
        case bin_index ty (values ! i) rangeMin binWidth of
          Inl e \<Rightarrow> Inl e
        | Inr bin \<Rightarrow>
            if bin < 0 then
              Inl (runtime_error \<lparr>diag_bin = bin, diag_size = length values,
                     diag_rangeMin = rangeMin, diag_rangeMax = rangeMax, diag_i = i,
                     diag_value = values ! i, diag_binWidth = binWidth\<rparr>)
            else if int numberOfBins \<le> bin then
              Inl (runtime_error \<lparr>diag_bin = bin, diag_size = length values,
                     diag_rangeMin = rangeMin, diag_rangeMax = rangeMax, diag_i = i,
                     diag_value = values ! i, diag_binWidth = binWidth\<rparr>)
            else Inr (bins[nat bin := bins ! nat bin + 1]))"

text \<open>
  The \<^verbatim>\<open>for\<close> loop over \<^verbatim>\<open>values\<close>, with the loop counter \<open>i\<close> and the vector \<open>bins\<close>
  as its state. A \<^verbatim>\<open>throw\<close> ends the loop with \<open>Inl\<close>.
\<close>

function ScalarHistogram_loop ::
  "TValue \<Rightarrow> real list \<Rightarrow> nat \<Rightarrow> real \<Rightarrow> real \<Rightarrow> float_result \<Rightarrow> nat \<Rightarrow> HistogramType
     \<Rightarrow> error + HistogramType"
where
  "ScalarHistogram_loop ty values numberOfBins rangeMin rangeMax binWidth i bins =
     (if i < length values then
        case ScalarHistogram_body ty values numberOfBins rangeMin rangeMax binWidth i bins of
          Inl e \<Rightarrow> Inl e
        | Inr bins' \<Rightarrow>
            ScalarHistogram_loop ty values numberOfBins rangeMin rangeMax binWidth (i + 1) bins'
      else Inr bins)"
  by pat_completeness auto
termination
  by (relation "measure (\<lambda>(ty, values, numberOfBins, rangeMin, rangeMax, binWidth, i, bins).
        length values - i)") auto

declare ScalarHistogram_loop.simps [simp del]

text \<open>
  The function itself. The vector \<open>bins\<close> is created first; a bin width within \<open>1e-6\<close>
  of zero returns it unchanged. With no bin at all the bin width is an infinity or
  NaN, the test lets it pass, and the loop runs on the samples with it.
\<close>

definition ScalarHistogram ::
  "TValue \<Rightarrow> real list \<Rightarrow> nat \<Rightarrow> real \<Rightarrow> real \<Rightarrow> error + HistogramType"
where
  "ScalarHistogram ty values numberOfBins rangeMin rangeMax =
     (let bins = replicate numberOfBins 0 in
      case ScalarHistogram_binWidth ty numberOfBins rangeMin rangeMax of
        Inl e \<Rightarrow> Inl e
      | Inr binWidth \<Rightarrow>
          if near_zero binWidth then Inr bins
          else ScalarHistogram_loop ty values numberOfBins rangeMin rangeMax binWidth 0 bins)"

section \<open>Compute1DConcatenatedHistogramOfMultiChannelImage\<close>

text \<open>
  Modelled from the spec: the image types of ITK and the two helpers
  \<^verbatim>\<open>ITKHelpers::ExtractChannel\<close> and \<^verbatim>\<open>ITKHelpers::GetPixelValuesInRegion\<close>, which the
  function calls and which are not among the sources. An image gives the number of
  components per pixel and, at every index, the pixel as the list of its components.
  A scalar image gives one value at every index. A region is an index and a size;
  its pixels are read row by row.
\<close>

record VectorImage =
  NumberOfComponentsPerPixel :: nat
  GetPixel :: "int \<times> int \<Rightarrow> real list"

type_synonym ScalarImage = "int \<times> int \<Rightarrow> real"

record ImageRegion =
  Index :: "int \<times> int"
  Size :: "nat \<times> nat"

definition ExtractChannel :: "VectorImage \<Rightarrow> nat \<Rightarrow> ScalarImage" where
  "ExtractChannel img channel = (\<lambda>index. GetPixel img index ! channel)"

definition region_indices :: "ImageRegion \<Rightarrow> (int \<times> int) list" where
  "region_indices region =
     concat (map (\<lambda>y. map (\<lambda>x. (fst (Index region) + int x, snd (Index region) + int y))
                          [0 ..< fst (Size region)])
                 [0 ..< snd (Size region)])"

definition GetPixelValuesInRegion :: "ScalarImage \<Rightarrow> ImageRegion \<Rightarrow> real list" where
  "GetPixelValuesInRegion img region = map img (region_indices region)"

text \<open>
  The loop over the channels, with the counter \<open>channel\<close> and the vector
  \<open>concatenatedHistograms\<close> as its state. An exception of \<open>ScalarHistogram\<close> is not
  caught, so it ends the loop. The first argument is the component type of the image,
  at which the function calls \<open>ScalarHistogram\<close>.
\<close>

function Compute1DConcatenatedHistogramOfMultiChannelImage_loop ::
  "TValue \<Rightarrow> VectorImage \<Rightarrow> ImageRegion \<Rightarrow> nat \<Rightarrow> real \<Rightarrow> real \<Rightarrow> nat \<Rightarrow> HistogramType
     \<Rightarrow> error + HistogramType"
where
  "Compute1DConcatenatedHistogramOfMultiChannelImage_loop ty img region
       numberOfBinsPerDimensions rangeMin rangeMax channel concatenatedHistograms =
     (if channel < NumberOfComponentsPerPixel img then
        let extractedChannel = ExtractChannel img channel;
            pixelValues = GetPixelValuesInRegion extractedChannel region
        in case ScalarHistogram ty pixelValues numberOfBinsPerDimensions rangeMin rangeMax of
             Inl e \<Rightarrow> Inl e
           | Inr histogram \<Rightarrow>
               Compute1DConcatenatedHistogramOfMultiChannelImage_loop ty img region
                 numberOfBinsPerDimensions rangeMin rangeMax (channel + 1)
                 (concatenatedHistograms @ histogram)
      else Inr concatenatedHistograms)"
  by pat_completeness auto
termination
  by (relation "measure (\<lambda>(ty, img, region, numberOfBinsPerDimensions, rangeMin, rangeMax,
        channel, concatenatedHistograms). NumberOfComponentsPerPixel img - channel)") auto

declare Compute1DConcatenatedHistogramOfMultiChannelImage_loop.simps [simp del]

definition Compute1DConcatenatedHistogramOfMultiChannelImage ::
  "TValue \<Rightarrow> VectorImage \<Rightarrow> ImageRegion \<Rightarrow> nat \<Rightarrow> real \<Rightarrow> real \<Rightarrow> error + HistogramType"
where
  "Compute1DConcatenatedHistogramOfMultiChannelImage ty img region
       numberOfBinsPerDimensions rangeMin rangeMax =
     Compute1DConcatenatedHistogramOfMultiChannelImage_loop ty img region
       numberOfBinsPerDimensions rangeMin rangeMax 0 []"

section \<open>HistogramIntersection\<close>

text \<open>
  The function returns a \<^verbatim>\<open>float\<close>, and its last step divides by a total that can be
  zero. A division by zero gives an infinity or NaN in the source, so the returned
  value is a \<open>float_result\<close>: a real number or one of these.
\<close>

definition float_divide :: "real \<Rightarrow> real \<Rightarrow> float_result" where
  "float_divide a b =
     (if b \<noteq> 0 then Finite (a / b)
      else if 0 < a then PlusInfinity
      else if a < 0 then MinusInfinity
      else NaN)"

text \<open>The loop over the bins, with the counter \<open>bin\<close> and \<open>totalIntersection\<close> as state.\<close>

function HistogramIntersection_loop ::
  "HistogramType \<Rightarrow> HistogramType \<Rightarrow> nat \<Rightarrow> real \<Rightarrow> real"
where
  "HistogramIntersection_loop histogram1 histogram2 bin totalIntersection =
     (if bin < length histogram1 then
        let frequency1 = histogram1 ! bin;
            frequency2 = histogram2 ! bin;
            intersection = min frequency1 frequency2
        in HistogramIntersection_loop histogram1 histogram2 (bin + 1)
             (totalIntersection + intersection)
      else totalIntersection)"
  by pat_completeness auto
termination
  by (relation "measure (\<lambda>(histogram1, histogram2, bin, totalIntersection).
        length histogram1 - bin)") auto

declare HistogramIntersection_loop.simps [simp del]

text \<open>\<^verbatim>\<open>std::accumulate\<close> adds the elements to the initial value from left to right.\<close>

definition accumulate :: "real list \<Rightarrow> real \<Rightarrow> real" where
  "accumulate xs init = foldl (+) init xs"

text \<open>
  The result is a pair: the text written to \<^verbatim>\<open>std::cerr\<close> and the value returned.
  \<^verbatim>\<open>std::endl\<close> writes a line feed.
\<close>

definition HistogramIntersection :: "HistogramType \<Rightarrow> HistogramType \<Rightarrow> string \<times> float_result" where
  "HistogramIntersection histogram1 histogram2 =
     (if length histogram1 \<noteq> length histogram2 then
        (''Histograms must be the same size!'' @ [CHR 0x0A], Finite 0)
      else
        let totalIntersection = HistogramIntersection_loop histogram1 histogram2 0 0;
            totalFrequency = accumulate histogram1 0;
            normalizedIntersection = float_divide totalIntersection totalFrequency
        in ([], normalizedIntersection))"

section \<open>WriteHistogram\<close>

text \<open>
  The loop of \<^verbatim>\<open>WriteHistogram\<close>, with the counter \<open>i\<close> and the text sent to \<open>fout\<close> so
  far as its state. Every pass sends one bin value and one space. How a bin value is
  turned into text is decided by the stream, not by this function, so \<open>put\<close> stands
  for the stream's \<^verbatim>\<open><<\<close> on the element type.
\<close>

function WriteHistogram_loop :: "('a \<Rightarrow> string) \<Rightarrow> 'a list \<Rightarrow> nat \<Rightarrow> string \<Rightarrow> string" where
  "WriteHistogram_loop put histogram i fout =
     (if i < length histogram then
        WriteHistogram_loop put histogram (i + 1) (fout @ put (histogram ! i) @ '' '')
      else fout)"
  by pat_completeness auto
termination
  by (relation "measure (\<lambda>(put, histogram, i, fout). length histogram - i)") auto

declare WriteHistogram_loop.simps [simp del]

text \<open>
  The files are a map from names to contents. Opening the \<^verbatim>\<open>ofstream\<close> empties the
  file, and closing it leaves the text of the loop there. A file that cannot be
  opened is outside the model.
\<close>

definition WriteHistogram ::
  "('a \<Rightarrow> string) \<Rightarrow> 'a list \<Rightarrow> string \<Rightarrow> (string \<rightharpoonup> string) \<Rightarrow> (string \<rightharpoonup> string)"
where
  "WriteHistogram put histogram filename files =
     files(filename \<mapsto> WriteHistogram_loop put histogram 0 [])"

subsection \<open>The text of a bin value\<close>

text \<open>
  A stream in its initial state prints a \<^verbatim>\<open>float\<close> with six significant digits, as
  \<^verbatim>\<open>printf\<close> does for \<^verbatim>\<open>%g\<close>. The bins of \<open>ScalarHistogram\<close> hold whole numbers
  (\<open>ScalarHistogram_whole_counts\<close> below), and \<open>ostream_float n\<close> is this format on a
  \<^verbatim>\<open>float\<close> that holds the whole number \<open>n\<close>:
  \<^item> below one million, all the digits of \<open>n\<close> (\<open>decimal\<close>);
  \<^item> from one million on, scientific notation (\<open>scientific\<close>). \<open>X\<close> is the decimal
    exponent of \<open>n\<close> and \<open>unit\<close> the weight of its sixth digit; \<open>m\<close> is \<open>n\<close> in these
    units, rounded to nearest with ties to even. Rounding up from 999999 carries
    into the exponent. The digits of \<open>m\<close> are printed without trailing zeros, with a
    point after the first when more follow, then \<^verbatim>\<open>e+\<close> and the exponent with two
    digits at least.
\<close>

definition digit_char :: "nat \<Rightarrow> char" where
  "digit_char d = ''0123456789'' ! d"

fun decimal :: "nat \<Rightarrow> string" where
  "decimal n = (if n < 10 then [digit_char n] else decimal (n div 10) @ [digit_char (n mod 10)])"

declare decimal.simps [simp del]

definition strip_trailing_zeros :: "string \<Rightarrow> string" where
  "strip_trailing_zeros ds = rev (dropWhile (\<lambda>c. c = CHR ''0'') (rev ds))"

definition scientific :: "nat \<Rightarrow> string" where
  "scientific n =
     (let X = length (decimal n) - 1;
          unit = 10 ^ (X - 5);
          q = n div unit;
          r = n mod unit;
          m = (if unit < 2 * r \<or> (unit = 2 * r \<and> odd q) then q + 1 else q);
          X' = (if m = 1000000 then X + 1 else X);
          m' = (if m = 1000000 then 100000 else m);
          ds = strip_trailing_zeros (decimal m')
      in hd ds # (if tl ds = [] then [] else CHR ''.'' # tl ds)
           @ ''e+'' @ (if X' < 10 then ''0'' else []) @ decimal X')"

definition ostream_float :: "nat \<Rightarrow> string" where
  "ostream_float n = (if n < 1000000 then decimal n else scientific n)"

subsection \<open>Reading the text back\<close>

text \<open>
  Modelled from the spec: the re-parsing of the written text. The sources have no
  function that reads a histogram; the spec speaks of re-parsing the
  whitespace-delimited text into the integer sequence. \<open>tokens\<close> cuts the text at the
  spaces, and \<open>ReadHistogram\<close> reads every piece as a decimal numeral; a piece with any
  other character makes the reading fail.
\<close>

fun tokens :: "string \<Rightarrow> string \<Rightarrow> string list" where
  "tokens cur [] = (if cur = [] then [] else [cur])"
| "tokens cur (c # cs) =
     (if c = CHR '' '' then (if cur = [] then tokens [] cs else cur # tokens [] cs)
      else tokens (cur @ [c]) cs)"

definition is_digit :: "char \<Rightarrow> bool" where
  "is_digit c = (c \<in> set ''0123456789'')"

definition digit_value :: "char \<Rightarrow> nat" where
  "digit_value c = of_char c - 48"

definition read_decimal :: "string \<Rightarrow> nat" where
  "read_decimal ds = foldl (\<lambda>a c. 10 * a + digit_value c) 0 ds"

definition ReadHistogram :: "string \<Rightarrow> nat list option" where
  "ReadHistogram text =
     (let ts = tokens [] text
      in if list_all (list_all is_digit) ts then Some (map read_decimal ts) else None)"

section \<open>Properties of the floating-point formats\<close>

subsection \<open>Rounding to an integer, and the exponent\<close>


lemma round_half_even_of_int [simp]: "round_half_even (of_int k) = k"
  by (simp add: round_half_even_def)



lemma exponent_search_range: "emin \<le> exponent_search k emin a \<and> exponent_search k emin a \<le> emin + int k"
proof (induction k emin a rule: exponent_search.induct)
  case (1 k emin a)
  show ?case
  proof (cases "k = 0")
    case True
    then show ?thesis by (simp add: exponent_search.simps)
  next
    case False
    show ?thesis
    proof (cases "2 powi (emin + int k) \<le> a")
      case True
      with False show ?thesis by (simp add: exponent_search.simps)
    next
      case F: False
      from "1.IH"[OF False F] False F show ?thesis
        by (subst exponent_search.simps, subst (2) exponent_search.simps) auto
    qed
  qed
qed

lemma exponent_search_lower:
  "emin < exponent_search k emin a \<Longrightarrow> 2 powi (exponent_search k emin a) \<le> a"
proof (induction k emin a rule: exponent_search.induct)
  case (1 k emin a)
  show ?case
  proof (cases "k = 0")
    case True
    with "1.prems" show ?thesis by (simp add: exponent_search.simps)
  next
    case False
    show ?thesis
    proof (cases "2 powi (emin + int k) \<le> a")
      case True
      with False show ?thesis by (simp add: exponent_search.simps)
    next
      case F: False
      have eq: "exponent_search k emin a = exponent_search (k - 1) emin a"
        using False F by (subst exponent_search.simps) simp
      from "1.IH"[OF False F] "1.prems" show ?thesis unfolding eq by simp
    qed
  qed
qed

lemma exponent_search_upper:
  "exponent_search k emin a < emin + int k \<Longrightarrow> a < 2 powi (exponent_search k emin a + 1)"
proof (induction k emin a rule: exponent_search.induct)
  case (1 k emin a)
  show ?case
  proof (cases "k = 0")
    case True
    with "1.prems" show ?thesis by (simp add: exponent_search.simps)
  next
    case False
    show ?thesis
    proof (cases "2 powi (emin + int k) \<le> a")
      case True
      with False "1.prems" show ?thesis by (simp add: exponent_search.simps)
    next
      case F: False
      have eq: "exponent_search k emin a = exponent_search (k - 1) emin a"
        using False F by (subst exponent_search.simps) simp
      show ?thesis
      proof (cases "exponent_search (k - 1) emin a < emin + int (k - 1)")
        case True
        from "1.IH"[OF False F True] show ?thesis unfolding eq .
      next
        case False': False
        with exponent_search_range[of emin "k - 1" a]
        have "exponent_search (k - 1) emin a = emin + int (k - 1)" by simp
        with False have "exponent_search (k - 1) emin a + 1 = emin + int k" by simp
        with F show ?thesis unfolding eq by simp
      qed
    qed
  qed
qed

lemma exponent_search_eq:
  assumes "emin \<le> e" "e \<le> emax"
    and lo: "emin < e \<Longrightarrow> 2 powi e \<le> a"
    and hi: "e < emax \<Longrightarrow> a < 2 powi (e + 1)"
  shows "exponent_search (nat (emax - emin)) emin a = e"
proof -
  let ?s = "exponent_search (nat (emax - emin)) emin a"
  have k: "emin + int (nat (emax - emin)) = emax" using assms(1,2) by simp
  have r: "emin \<le> ?s" "?s \<le> emax"
    using exponent_search_range[of emin "nat (emax - emin)" a] k by simp_all
  have "\<not> ?s < e"
  proof
    assume s: "?s < e"
    then have "?s < emin + int (nat (emax - emin))" using assms(2) k by simp
    then have "a < 2 powi (?s + 1)" by (rule exponent_search_upper)
    also have "(2::real) powi (?s + 1) \<le> 2 powi e"
      using s by (intro power_int_increasing) simp_all
    also have "\<dots> \<le> a" using lo s r(1) by simp
    finally show False by simp
  qed
  moreover have "\<not> e < ?s"
  proof
    assume s: "e < ?s"
    then have "emin < ?s" using assms(1) by simp
    then have "2 powi ?s \<le> a" by (rule exponent_search_lower)
    moreover have "a < 2 powi (e + 1)" using hi s r(2) by simp
    moreover have "(2::real) powi (e + 1) \<le> 2 powi ?s"
      using s by (intro power_int_increasing) simp_all
    ultimately show False by simp
  qed
  ultimately show ?thesis by simp
qed

text \<open>
  With the exponent \<open>e\<close> of \<open>x\<close> at hand, the rounding is a computation: this is how
  the examples below evaluate \<open>float32\<close> and \<open>float64\<close>.
\<close>

lemma round_to_eval:
  assumes "emin \<le> e" "e \<le> emax"
    and "emin < e \<Longrightarrow> 2 powi e \<le> \<bar>x\<bar>"
    and "e < emax \<Longrightarrow> \<bar>x\<bar> < 2 powi (e + 1)"
  shows "round_to p emin emax x =
     (let ulp = 2 powi (e - int p + 1);
          r = of_int (round_half_even (\<bar>x\<bar> / ulp)) * ulp
      in if 2 powi (emax + 1) \<le> r then (if 0 < x then PlusInfinity else MinusInfinity)
         else Finite (if x < 0 then - r else r))"
proof -
  have s: "exponent_search (nat (emax - emin)) emin \<bar>x\<bar> = e"
    using assms by (intro exponent_search_eq) simp_all
  show ?thesis unfolding round_to_def Let_def s ..
qed

lemma exponent_search_cases:
  assumes "emin \<le> emax"
  obtains (subnormal) "exponent_search (nat (emax - emin)) emin a = emin" "a < 2 powi (emin + 1)"
        | (normal) e where "exponent_search (nat (emax - emin)) emin a = e" "emin \<le> e" "e \<le> emax"
            "2 powi e \<le> a" "e < emax \<longrightarrow> a < 2 powi (e + 1)"
proof -
  let ?s = "exponent_search (nat (emax - emin)) emin a"
  have k: "emin + int (nat (emax - emin)) = emax" using assms by simp
  have r: "emin \<le> ?s" "?s \<le> emax"
    using exponent_search_range[of emin "nat (emax - emin)" a] k by simp_all
  have up: "?s < emax \<longrightarrow> a < 2 powi (?s + 1)"
    using exponent_search_upper[of "nat (emax - emin)" emin a] k by simp
  show thesis
  proof (cases "emin < ?s")
    case True
    then have "2 powi ?s \<le> a" by (rule exponent_search_lower)
    with r up show thesis by (intro normal[of ?s]) simp_all
  next
    case False
    with r have eq: "?s = emin" by simp
    show thesis
    proof (cases "2 powi emin \<le> a")
      case True
      with r up eq show thesis by (intro normal[of ?s]) simp_all
    next
      case False
      then have "a < 2 powi emin" by simp
      also have "(2::real) powi emin \<le> 2 powi (emin + 1)"
        by (intro power_int_increasing) simp_all
      finally show thesis using eq by (intro subnormal) simp_all
    qed
  qed
qed

subsection \<open>The error of a rounding\<close>






subsection \<open>Whole numbers are exact\<close>

lemma round_to_of_int:
  assumes emin: "emin \<le> 0" and pe: "int p \<le> emax + 1" and p: "1 \<le> p"
    and k: "\<bar>k\<bar> < 2 ^ p"
  shows "round_to p emin emax (of_int k) = Finite (of_int k)"
proof -
  define a :: real where "a = \<bar>of_int k\<bar>"
  define e where "e = exponent_search (nat (emax - emin)) emin a"
  have em: "emin \<le> emax" using emin pe p by simp
  have ak: "a = of_int \<bar>k\<bar>" by (simp add: a_def)
  have "(of_int \<bar>k\<bar> :: real) < of_int (2 ^ p)" using k by (simp only: of_int_less_iff)
  then have alt: "a < 2 ^ p" using ak by simp
  have ep: "e \<le> int p - 1"
  proof (rule exponent_search_cases[OF em, of a])
    assume "exponent_search (nat (emax - emin)) emin a = emin"
    then show ?thesis using emin p by (simp add: e_def)
  next
    fix e' assume eq: "exponent_search (nat (emax - emin)) emin a = e'" and lo: "2 powi e' \<le> a"
    have "\<not> int p \<le> e'"
    proof
      assume "int p \<le> e'"
      then have "(2::real) powi (int p) \<le> 2 powi e'" by (intro power_int_increasing) simp_all
      with lo alt show False by simp
    qed
    then show ?thesis using eq by (simp add: e_def)
  qed
  define m where "m = nat (int p - 1 - e)"
  have me: "e - int p + 1 = - int m" using ep by (simp add: m_def)
  have ulp: "(2::real) powi (e - int p + 1) = 1 / 2 ^ m"
    unfolding me by (simp add: power_int_minus_divide)
  have q: "a / (2 powi (e - int p + 1)) = of_int (\<bar>k\<bar> * 2 ^ m)"
    unfolding ulp ak by simp
  have r: "of_int (round_half_even (a / (2 powi (e - int p + 1)))) * 2 powi (e - int p + 1) = a"
    unfolding q round_half_even_of_int unfolding ulp ak by simp
  have "(2::real) ^ p = 2 powi (int p)" by simp
  also have "\<dots> \<le> 2 powi (emax + 1)" using pe by (intro power_int_increasing) simp_all
  finally have fin: "\<not> 2 powi (emax + 1) \<le> a" using alt by simp
  have "round_to p emin emax (of_int k) = Finite (if (of_int k :: real) < 0 then - a else a)"
    unfolding round_to_def Let_def a_def [symmetric] e_def [symmetric] r using fin by simp
  also have "(if (of_int k :: real) < 0 then - a else a) = of_int k" by (simp add: a_def)
  finally show ?thesis .
qed

lemma round_to_of_nat:
  assumes "emin \<le> 0" "int p \<le> emax + 1" "1 \<le> p" "n < 2 ^ p"
  shows "round_to p emin emax (real n) = Finite (real n)"
proof -
  have "\<bar>int n\<bar> < 2 ^ p" using assms(4) by (metis abs_of_nat of_nat_less_iff of_nat_numeral of_nat_power)
  from round_to_of_int[OF assms(1-3) this] show ?thesis by simp
qed

lemma round_to_numeral:
  assumes "emin \<le> 0" "int p \<le> emax + 1" "1 \<le> p" "numeral w < (2::int) ^ p"
  shows "round_to p emin emax (numeral w) = Finite (numeral w)"
    and "round_to p emin emax (- numeral w) = Finite (- numeral w)"
    and "round_to p emin emax 0 = Finite 0"
    and "round_to p emin emax 1 = Finite 1"
proof -
  show "round_to p emin emax (numeral w) = Finite (numeral w)"
    using round_to_of_int[OF assms(1-3), of "numeral w"] assms(4) by simp
  show "round_to p emin emax (- numeral w) = Finite (- numeral w)"
    using round_to_of_int[OF assms(1-3), of "- numeral w"] assms(4) by simp
  show "round_to p emin emax 0 = Finite 0"
    using round_to_of_int[OF assms(1-3), of 0] by simp
  have "(1::int) < 2 ^ p" using assms(3) by (metis one_less_numeral_iff one_less_power semiring_norm(76) less_eq_Suc_le not_less_eq_eq One_nat_def zero_less_iff_neq_zero not_one_le_zero)
  then show "round_to p emin emax 1 = Finite 1"
    using round_to_of_int[OF assms(1-3), of 1] by simp
qed

subsection \<open>binary32 and binary64\<close>

lemma float32_eval:
  assumes "- 126 < e" "e < 127" "2 powi e \<le> \<bar>x\<bar>" "\<bar>x\<bar> < 2 powi (e + 1)"
  shows "float32 x =
     (let ulp = 2 powi (e - 23);
          r = of_int (round_half_even (\<bar>x\<bar> / ulp)) * ulp
      in if 2 ^ 128 \<le> r then (if 0 < x then PlusInfinity else MinusInfinity)
         else Finite (if x < 0 then - r else r))"
proof -
  have "float32 x = (let ulp = 2 powi (e - int 24 + 1);
          r = of_int (round_half_even (\<bar>x\<bar> / ulp)) * ulp
      in if 2 powi (127 + 1) \<le> r then (if 0 < x then PlusInfinity else MinusInfinity)
         else Finite (if x < 0 then - r else r))"
    unfolding float32_def using assms by (intro round_to_eval) simp_all
  also have "e - int 24 + 1 = e - 23" by simp
  finally show ?thesis by simp
qed

lemma float32_of_int: "\<bar>k\<bar> < 2 ^ 24 \<Longrightarrow> float32 (of_int k) = Finite (of_int k)"
  unfolding float32_def by (rule round_to_of_int) simp_all

lemma float32_of_nat: "n < 2 ^ 24 \<Longrightarrow> float32 (real n) = Finite (real n)"
  unfolding float32_def by (rule round_to_of_nat) simp_all

lemma float32_numeral:
  "numeral w < (2::int) ^ 24 \<Longrightarrow> float32 (numeral w) = Finite (numeral w)"
  using float32_of_int[of "numeral w"] by simp

lemma float32_neg_numeral:
  "numeral w < (2::int) ^ 24 \<Longrightarrow> float32 (- numeral w) = Finite (- numeral w)"
  using float32_of_int[of "- numeral w"] by simp

lemma float32_0: "float32 0 = Finite 0"
  using float32_of_int[of 0] by simp

lemma float32_1: "float32 1 = Finite 1"
  using float32_of_int[of 1] by simp

lemma float32_m1: "float32 (- 1) = Finite (- 1)"
  using float32_of_int[of "- 1"] by simp

lemmas float32_ints = float32_numeral float32_neg_numeral float32_0 float32_1 float32_m1

lemma float64_eval:
  assumes "- 1022 < e" "e < 1023" "2 powi e \<le> \<bar>x\<bar>" "\<bar>x\<bar> < 2 powi (e + 1)"
  shows "float64 x =
     (let ulp = 2 powi (e - 52);
          r = of_int (round_half_even (\<bar>x\<bar> / ulp)) * ulp
      in if 2 ^ 1024 \<le> r then (if 0 < x then PlusInfinity else MinusInfinity)
         else Finite (if x < 0 then - r else r))"
proof -
  have "float64 x = (let ulp = 2 powi (e - int 53 + 1);
          r = of_int (round_half_even (\<bar>x\<bar> / ulp)) * ulp
      in if 2 powi (1023 + 1) \<le> r then (if 0 < x then PlusInfinity else MinusInfinity)
         else Finite (if x < 0 then - r else r))"
    unfolding float64_def using assms by (intro round_to_eval) simp_all
  also have "e - int 53 + 1 = e - 52" by simp
  finally show ?thesis by simp
qed

lemma float64_of_int: "\<bar>k\<bar> < 2 ^ 53 \<Longrightarrow> float64 (of_int k) = Finite (of_int k)"
  unfolding float64_def by (rule round_to_of_int) simp_all

lemma float64_numeral:
  "numeral w < (2::int) ^ 53 \<Longrightarrow> float64 (numeral w) = Finite (numeral w)"
  using float64_of_int[of "numeral w"] by simp

lemma float64_neg_numeral:
  "numeral w < (2::int) ^ 53 \<Longrightarrow> float64 (- numeral w) = Finite (- numeral w)"
  using float64_of_int[of "- numeral w"] by simp

lemma float64_0: "float64 0 = Finite 0"
  using float64_of_int[of 0] by simp

lemmas float64_ints = float64_numeral float64_neg_numeral float64_0




section \<open>Properties of ScalarHistogram\<close>

subsection \<open>Evaluation\<close>

text \<open>
  The equations that evaluate \<open>ScalarHistogram\<close> on given numbers, and three runs that
  end in the exception: a sample above the range, a sample below the range by more
  than a bin width, and a histogram with no bins, whose bin width is an infinity.
\<close>

lemmas eval_defs = ScalarHistogram_def ScalarHistogram_binWidth_def subtract_def divide_by_float_def
      divide_in_def convert_def float32_ints near_zero_def round_half_even_def
      ScalarHistogram_loop.simps ScalarHistogram_body_def bin_index_def
      float_to_int_def truncate_toward_zero_def

lemma ScalarHistogram_above_rangeMax_example:
  "ScalarHistogram T_unsigned_char [251] 2 10 250 =
     Inl (runtime_error \<lparr>diag_bin = 2, diag_size = 1, diag_rangeMin = 10, diag_rangeMax = 250,
            diag_i = 0, diag_value = 251, diag_binWidth = Finite 120\<rparr>)"
  by (simp add: eval_defs float32_eval[of 1])

lemma ScalarHistogram_far_below_rangeMin_example:
  "ScalarHistogram T_int [- 120] 2 10 250 =
     Inl (runtime_error \<lparr>diag_bin = - 1, diag_size = 1, diag_rangeMin = 10, diag_rangeMax = 250,
            diag_i = 0, diag_value = - 120, diag_binWidth = Finite 120\<rparr>)"
  by (simp add: eval_defs float32_eval[of 0])

lemma ScalarHistogram_no_bins_example:
  "ScalarHistogram T_float [5] 0 0 10 =
     Inl (runtime_error \<lparr>diag_bin = 0, diag_size = 1, diag_rangeMin = 0, diag_rangeMax = 10,
            diag_i = 0, diag_value = 5, diag_binWidth = PlusInfinity\<rparr>)"
  by (simp add: eval_defs)

subsection \<open>One more sample\<close>


lemma ScalarHistogram_body_length:
  "ScalarHistogram_body ty vs n lo hi w i bins = Inr b \<Longrightarrow> length b = length bins"
  by (auto simp: ScalarHistogram_body_def split: if_splits sum.splits)





lemma ScalarHistogram_loop_step:
  "i < length vs \<Longrightarrow>
   ScalarHistogram_loop ty vs n lo hi w i bins =
     (case ScalarHistogram_body ty vs n lo hi w i bins of
        Inl e \<Rightarrow> Inl e
      | Inr b \<Rightarrow> ScalarHistogram_loop ty vs n lo hi w (i + 1) b)"
  by (subst ScalarHistogram_loop.simps) simp

lemma ScalarHistogram_loop_done:
  "\<not> i < length vs \<Longrightarrow> ScalarHistogram_loop ty vs n lo hi w i bins = Inr bins"
  by (subst ScalarHistogram_loop.simps) simp

lemma ScalarHistogram_loop_length:
  "ScalarHistogram_loop ty vs n lo hi w i bins = Inr h \<Longrightarrow> length h = length bins"
proof (induction ty vs n lo hi w i bins rule: ScalarHistogram_loop.induct)
  case (1 ty vs n lo hi w i bins)
  show ?case
  proof (cases "i < length vs")
    case False
    with "1.prems" show ?thesis by (simp add: ScalarHistogram_loop_done)
  next
    case True
    with "1.prems" obtain b where b: "ScalarHistogram_body ty vs n lo hi w i bins = Inr b"
      and r: "ScalarHistogram_loop ty vs n lo hi w (i + 1) b = Inr h"
      by (auto simp: ScalarHistogram_loop_step split: sum.splits)
    from "1.IH"[OF True b r] ScalarHistogram_body_length[OF b] show ?thesis by simp
  qed
qed






lemma ScalarHistogram_unfold:
  assumes "ScalarHistogram_binWidth ty numberOfBins rangeMin rangeMax = Inr binWidth"
    and "\<not> near_zero binWidth"
  shows "ScalarHistogram ty values numberOfBins rangeMin rangeMax =
         ScalarHistogram_loop ty values numberOfBins rangeMin rangeMax binWidth 0
           (replicate numberOfBins 0)"
  using assms by (simp add: ScalarHistogram_def)

lemma ScalarHistogram_length:
  "ScalarHistogram ty vs n lo hi = Inr h \<Longrightarrow> length h = n"
  by (auto simp: ScalarHistogram_def Let_def split: if_splits sum.splits
      dest: ScalarHistogram_loop_length)

subsection \<open>Samples inside the range\<close>

text \<open>
  A run that returns has counted every sample: with a bin width that is not within
  \<open>1e-6\<close> of zero, the vector returned has \<open>numberOfBins\<close> entries and they add up to
  the number of samples.
\<close>

lemma sum_list_incr:
  fixes xs :: "real list"
  shows "k < length xs \<Longrightarrow> sum_list (xs[k := xs ! k + 1]) = sum_list xs + 1"
  by (induction xs arbitrary: k) (auto split: nat.splits)

lemma ScalarHistogram_body_sum:
  assumes "ScalarHistogram_body ty vs n lo hi w i bins = Inr b" and "length bins = n"
  shows "sum_list b = sum_list bins + 1"
proof (cases "vs ! i = hi")
  case True
  with assms have "bins \<noteq> []" "b = bins[length bins - 1 := bins ! (length bins - 1) + 1]"
    by (auto simp: ScalarHistogram_body_def split: if_splits)
  then show ?thesis by (simp add: sum_list_incr)
next
  case False
  with assms(1) obtain bin where "\<not> bin < 0" "\<not> int n \<le> bin"
    "b = bins[nat bin := bins ! nat bin + 1]"
    by (auto simp: ScalarHistogram_body_def split: if_splits sum.splits)
  moreover from this assms(2) have "nat bin < length bins" by simp
  ultimately show ?thesis by (simp add: sum_list_incr)
qed

lemma ScalarHistogram_loop_sum:
  "ScalarHistogram_loop ty vs n lo hi w i bins = Inr h \<Longrightarrow> length bins = n \<Longrightarrow> i \<le> length vs
     \<Longrightarrow> sum_list h = sum_list bins + real (length vs - i)"
proof (induction ty vs n lo hi w i bins rule: ScalarHistogram_loop.induct)
  case (1 ty vs n lo hi w i bins)
  show ?case
  proof (cases "i < length vs")
    case False
    then show ?thesis using "1.prems" by (auto simp: ScalarHistogram_loop.simps)
  next
    case True
    from "1.prems"(1) True obtain b where
      b: "ScalarHistogram_body ty vs n lo hi w i bins = Inr b"
      and rec: "ScalarHistogram_loop ty vs n lo hi w (i + 1) b = Inr h"
      by (subst (asm) ScalarHistogram_loop.simps) (auto split: sum.splits)
    from ScalarHistogram_body_length[OF b] "1.prems"(2) have lb: "length b = n" by simp
    from True have "i + 1 \<le> length vs" by simp
    from "1.IH"[OF True b rec lb this] ScalarHistogram_body_sum[OF b "1.prems"(2)] True
    show ?thesis by (simp add: Suc_diff_Suc of_nat_diff)
  qed
qed

lemma ScalarHistogram_counts_every_sample:
  assumes "ScalarHistogram ty vs n lo hi = Inr h"
    and "ScalarHistogram_binWidth ty n lo hi = Inr w" and "\<not> near_zero w"
  shows "length h = n \<and> sum_list h = real (length vs)"
proof -
  from assms have l: "ScalarHistogram_loop ty vs n lo hi w 0 (replicate n 0) = Inr h"
    by (simp add: ScalarHistogram_unfold)
  have z: "sum_list (replicate n (0::real)) = 0" by (induction n) simp_all
  from ScalarHistogram_loop_sum[OF l] ScalarHistogram_length[OF assms(1)] z
  show ?thesis by simp
qed

text \<open>
  C1. The claim that \<open>ScalarHistogram\<close> returns \<open>numberOfBins\<close> counts that add up to
  the number of samples, whenever every sample lies between \<open>rangeMin\<close> and \<open>rangeMax\<close>,
  fails on the code: a sample inside the range can raise the exception.

  With seven bins over the range from 0 to 255 at \<^verbatim>\<open>float\<close>, the bin width is the
  \<^verbatim>\<open>float\<close> nearest to \<open>255 / 7\<close>, which is \<open>9549531 / 2^18\<close> and not within \<open>1e-6\<close> of
  zero. The sample \<open>255 - 2^-16\<close> (254.99998474121094) is a \<^verbatim>\<open>float\<close> inside the range.
  Its quotient by the bin width is rounded to 7, and the function throws
  \<^verbatim>\<open>Can't write to bin 7\<close>.

  With one bin over the range from 0 to 16777217 at \<^verbatim>\<open>int\<close>, the difference 16777217 is
  converted to the \<^verbatim>\<open>float\<close> 16777216, which is the bin width. The sample 16777216 lies
  inside the range; its bin index is 1, and the function throws as well.
\<close>

theorem ScalarHistogram_in_range_raises:
  "ScalarHistogram_binWidth T_float 7 0 255 = Inr (Finite (9549531 / 2 ^ 18))
   \<and> \<not> near_zero (Finite (9549531 / 2 ^ 18))
   \<and> (0::real) \<le> 255 - 1 / 2 ^ 16 \<and> 255 - 1 / 2 ^ 16 \<le> (255::real)
   \<and> ScalarHistogram T_float [255 - 1 / 2 ^ 16] 7 0 255 =
       Inl (runtime_error \<lparr>diag_bin = 7, diag_size = 1, diag_rangeMin = 0, diag_rangeMax = 255,
              diag_i = 0, diag_value = 255 - 1 / 2 ^ 16,
              diag_binWidth = Finite (9549531 / 2 ^ 18)\<rparr>)
   \<and> ScalarHistogram T_int [16777216] 1 0 16777217 =
       Inl (runtime_error \<lparr>diag_bin = 1, diag_size = 1, diag_rangeMin = 0,
              diag_rangeMax = 16777217, diag_i = 0, diag_value = 16777216,
              diag_binWidth = Finite 16777216\<rparr>)"
  by (simp add: eval_defs float32_eval[of 5] float32_eval[of 7] float32_eval[of 2]
      float32_eval[of 24])

subsection \<open>The sample equal to rangeMax\<close>



subsection \<open>Samples just below the range\<close>









text \<open>
  C2. The claim that every sample below \<open>rangeMin\<close> raises the error fails on the code.
  With two bins over the range from 10 to 250 the bin width is 120; the sample 5 lies
  below the range, and at the sample types \<^verbatim>\<open>unsigned char\<close>, \<^verbatim>\<open>int\<close>, \<^verbatim>\<open>float\<close> and
  \<^verbatim>\<open>double\<close> the result is no error but a histogram with the sample in the first bin.
\<close>

theorem ScalarHistogram_below_rangeMin_counted:
  "ScalarHistogram T_unsigned_char [5] 2 10 250 = Inr [1, 0]
   \<and> ScalarHistogram T_int [5] 2 10 250 = Inr [1, 0]
   \<and> ScalarHistogram T_float [5] 2 10 250 = Inr [1, 0]
   \<and> ScalarHistogram T_double [5] 2 10 250 = Inr [1, 0]"
  by (simp add: eval_defs float64_ints float32_eval[of "- 5"] float64_eval[of "- 5"] numeral_eq_Suc)

subsection \<open>The degenerate range\<close>

text \<open>
  C4. With at least one bin, a bin width within \<open>1e-6\<close> of zero (the bin width as
  line 75 computes it, the test as line 77 makes it) returns \<open>numberOfBins\<close> zeros,
  whatever the samples are, and no error.
\<close>

theorem ScalarHistogram_degenerate:
  assumes "1 \<le> numberOfBins"
    and "ScalarHistogram_binWidth ty numberOfBins rangeMin rangeMax = Inr binWidth"
    and "near_zero binWidth"
  shows "ScalarHistogram ty values numberOfBins rangeMin rangeMax = Inr (replicate numberOfBins 0)"
  using assms by (simp add: ScalarHistogram_def)

theorem ScalarHistogram_degenerate_witness:
  "1 \<le> (3::nat) \<and> ScalarHistogram_binWidth T_int 3 7 7 = Inr (Finite 0) \<and> near_zero (Finite 0)
   \<and> ScalarHistogram T_int [1, 7, 1000] 3 7 7 = Inr [0, 0, 0]"
proof -
  have b: "ScalarHistogram_binWidth T_int 3 7 7 = Inr (Finite 0)" by (simp add: eval_defs)
  have nz: "near_zero (Finite 0)" by (simp add: near_zero_def)
  from ScalarHistogram_degenerate[OF _ b nz, of "[1, 7, 1000]"] b nz
  show ?thesis by (simp add: numeral_eq_Suc)
qed

subsection \<open>The bins hold whole numbers\<close>

lemma map_real_incr:
  "(map real cs)[k := map real cs ! k + 1] = map real (cs[k := cs ! k + 1])"
proof (cases "k < length cs")
  case True
  then show ?thesis by (simp add: map_update add.commute)
next
  case False
  then show ?thesis by (simp add: list_update_beyond)
qed

lemma ScalarHistogram_body_whole:
  "ScalarHistogram_body ty vs n lo hi w i (map real cs) = Inr b \<Longrightarrow> \<exists>cs'. b = map real cs'"
  unfolding ScalarHistogram_body_def
  by (auto simp: map_real_incr simp del: length_map nth_map split: if_splits sum.splits)

lemma ScalarHistogram_loop_whole:
  "ScalarHistogram_loop ty vs n lo hi w i bins = Inr h \<Longrightarrow> \<exists>cs. bins = map real cs
     \<Longrightarrow> \<exists>counts. h = map real counts"
proof (induction ty vs n lo hi w i bins rule: ScalarHistogram_loop.induct)
  case (1 ty vs n lo hi w i bins)
  show ?case
  proof (cases "i < length vs")
    case False
    then show ?thesis using "1.prems" by (auto simp: ScalarHistogram_loop.simps)
  next
    case True
    from "1.prems"(1) True obtain b where
      b: "ScalarHistogram_body ty vs n lo hi w i bins = Inr b"
      and rec: "ScalarHistogram_loop ty vs n lo hi w (i + 1) b = Inr h"
      by (subst (asm) ScalarHistogram_loop.simps) (auto split: sum.splits)
    from b "1.prems"(2) have "\<exists>cs. b = map real cs"
      by (auto dest: ScalarHistogram_body_whole)
    from "1.IH"[OF True b rec this] show ?thesis .
  qed
qed

lemma ScalarHistogram_whole_counts:
  assumes "ScalarHistogram ty vs n lo hi = Inr h"
  shows "\<exists>counts. h = map real counts"
proof -
  have z: "\<exists>cs. replicate n (0::real) = map real cs"
    by (rule exI[of _ "replicate n 0"]) simp
  from assms have "h = replicate n 0
      \<or> (\<exists>w. ScalarHistogram_loop ty vs n lo hi w 0 (replicate n 0) = Inr h)"
    unfolding ScalarHistogram_def Let_def
    by (auto split: if_splits sum.splits)
  then show ?thesis using z ScalarHistogram_loop_whole by blast
qed

section \<open>Properties of Compute1DConcatenatedHistogramOfMultiChannelImage\<close>

lemma Compute1DConcatenatedHistogramOfMultiChannelImage_loop_char:
  "Compute1DConcatenatedHistogramOfMultiChannelImage_loop ty img region k lo hi c acc = Inr H \<longleftrightarrow>
   (\<exists>hs. length hs = NumberOfComponentsPerPixel img - c
      \<and> (\<forall>j < NumberOfComponentsPerPixel img - c.
            ScalarHistogram ty (GetPixelValuesInRegion (ExtractChannel img (c + j)) region) k lo hi
              = Inr (hs ! j))
      \<and> H = acc @ concat hs)"
proof (induction ty img region k lo hi c acc
    rule: Compute1DConcatenatedHistogramOfMultiChannelImage_loop.induct)
  case (1 ty img region k lo hi c acc)
  let ?C = "NumberOfComponentsPerPixel img"
  let ?S = "\<lambda>j. ScalarHistogram ty (GetPixelValuesInRegion (ExtractChannel img j) region) k lo hi"
  show ?case
  proof (cases "c < ?C")
    case False
    then show ?thesis
      by (subst Compute1DConcatenatedHistogramOfMultiChannelImage_loop.simps) auto
  next
    case True
    note c = True
    show ?thesis
    proof (cases "?S c")
      case (Inl e)
      have "\<not> (\<exists>hs. length hs = ?C - c \<and> (\<forall>j < ?C - c. ?S (c + j) = Inr (hs ! j)) \<and> H = acc @ concat hs)"
      proof
        assume "\<exists>hs. length hs = ?C - c \<and> (\<forall>j < ?C - c. ?S (c + j) = Inr (hs ! j)) \<and> H = acc @ concat hs"
        then obtain hs where "\<forall>j < ?C - c. ?S (c + j) = Inr (hs ! j)" by blast
        with c have "?S (c + 0) = Inr (hs ! 0)" by (metis zero_less_diff)
        with Inl show False by simp
      qed
      then show ?thesis using c Inl
        by (subst Compute1DConcatenatedHistogramOfMultiChannelImage_loop.simps) (simp add: Let_def)
    next
      case (Inr h0)
      have step: "Compute1DConcatenatedHistogramOfMultiChannelImage_loop ty img region k lo hi c acc
          = Compute1DConcatenatedHistogramOfMultiChannelImage_loop ty img region k lo hi (c + 1) (acc @ h0)"
        using c Inr
        by (subst Compute1DConcatenatedHistogramOfMultiChannelImage_loop.simps) (simp add: Let_def)
      note IH = "1.IH"[OF c refl refl Inr]
      show ?thesis
      proof
        assume "Compute1DConcatenatedHistogramOfMultiChannelImage_loop ty img region k lo hi c acc = Inr H"
        with step IH obtain hs where hs: "length hs = ?C - (c + 1)"
          "\<forall>j < ?C - (c + 1). ?S (c + 1 + j) = Inr (hs ! j)" "H = (acc @ h0) @ concat hs"
          by auto
        have "\<forall>j < ?C - c. ?S (c + j) = Inr ((h0 # hs) ! j)"
        proof (intro allI impI)
          fix j assume j: "j < ?C - c"
          show "?S (c + j) = Inr ((h0 # hs) ! j)"
          proof (cases j)
            case 0
            then show ?thesis using Inr by simp
          next
            case (Suc j')
            with j have "j' < ?C - (c + 1)" by simp
            with hs(2) have "?S (c + 1 + j') = Inr (hs ! j')" by blast
            then show ?thesis using Suc by simp
          qed
        qed
        moreover have "length (h0 # hs) = ?C - c" using hs(1) c by simp
        moreover have "H = acc @ concat (h0 # hs)" using hs(3) by simp
        ultimately show "\<exists>hs. length hs = ?C - c \<and> (\<forall>j < ?C - c. ?S (c + j) = Inr (hs ! j)) \<and> H = acc @ concat hs"
          by blast
      next
        assume "\<exists>hs. length hs = ?C - c \<and> (\<forall>j < ?C - c. ?S (c + j) = Inr (hs ! j)) \<and> H = acc @ concat hs"
        then obtain hs where hs: "length hs = ?C - c"
          "\<forall>j < ?C - c. ?S (c + j) = Inr (hs ! j)" "H = acc @ concat hs" by blast
        from hs(1) c obtain g gs where g: "hs = g # gs" by (cases hs) auto
        from hs(2) c have "?S (c + 0) = Inr (hs ! 0)" by (metis zero_less_diff)
        with Inr g have g0: "g = h0" by simp
        have "length gs = ?C - (c + 1)" using hs(1) g by simp
        moreover have "\<forall>j < ?C - (c + 1). ?S (c + 1 + j) = Inr (gs ! j)"
        proof (intro allI impI)
          fix j assume "j < ?C - (c + 1)"
          then have "Suc j < ?C - c" by simp
          with hs(2) have "?S (c + Suc j) = Inr (hs ! Suc j)" by blast
          then show "?S (c + 1 + j) = Inr (gs ! j)" using g by simp
        qed
        moreover have "H = (acc @ h0) @ concat gs" using hs(3) g g0 by simp
        ultimately have "Compute1DConcatenatedHistogramOfMultiChannelImage_loop ty img region k lo hi (c + 1) (acc @ h0) = Inr H"
          using IH by blast
        with step show "Compute1DConcatenatedHistogramOfMultiChannelImage_loop ty img region k lo hi c acc = Inr H"
          by simp
      qed
    qed
  qed
qed

lemma concat_slice:
  "\<forall>h \<in> set hs. length h = k \<Longrightarrow> j < length hs \<Longrightarrow> take k (drop (k * j) (concat hs)) = hs ! j"
proof (induction hs arbitrary: j)
  case Nil
  then show ?case by simp
next
  case (Cons h hs)
  show ?case
  proof (cases j)
    case 0
    then show ?thesis using Cons.prems by simp
  next
    case (Suc j')
    then have "take k (drop (k * j) (concat (h # hs))) = take k (drop (k * j') (concat hs))"
      using Cons.prems(1) by simp
    also have "\<dots> = hs ! j'" using Cons.IH[of j'] Cons.prems Suc by simp
    finally show ?thesis using Suc by simp
  qed
qed

lemma length_concat_const:
  "\<forall>h \<in> set hs. length h = k \<Longrightarrow> length (concat hs) = length hs * k"
  by (induction hs) auto

text \<open>
  C5. The histogram of a multi-channel image is the scalar histograms of its channels,
  concatenated in increasing channel order: the function returns \<open>H\<close> exactly when
  every channel has a scalar histogram and \<open>H\<close> is their concatenation. Then \<open>H\<close> has
  \<open>NumberOfComponentsPerPixel \<times> k\<close> entries, and the entries \<open>k\<cdot>j .. k\<cdot>j + k - 1\<close> are the
  scalar histogram of the samples of channel \<open>j\<close>, so they depend on these samples
  only; for \<open>j = 0\<close> these are the first \<open>k\<close> entries.
\<close>

theorem Compute1DConcatenatedHistogramOfMultiChannelImage_concat:
  "(Compute1DConcatenatedHistogramOfMultiChannelImage ty img region k rangeMin rangeMax = Inr H \<longleftrightarrow>
      (\<exists>hs. length hs = NumberOfComponentsPerPixel img
         \<and> (\<forall>j < NumberOfComponentsPerPixel img.
               ScalarHistogram ty (GetPixelValuesInRegion (ExtractChannel img j) region)
                 k rangeMin rangeMax = Inr (hs ! j))
         \<and> H = concat hs))
   \<and> (Compute1DConcatenatedHistogramOfMultiChannelImage ty img region k rangeMin rangeMax = Inr H \<longrightarrow>
        length H = NumberOfComponentsPerPixel img * k
        \<and> (\<forall>j < NumberOfComponentsPerPixel img.
              ScalarHistogram ty (GetPixelValuesInRegion (ExtractChannel img j) region)
                k rangeMin rangeMax = Inr (take k (drop (k * j) H))))"
proof -
  let ?C = "NumberOfComponentsPerPixel img"
  let ?S = "\<lambda>j. ScalarHistogram ty (GetPixelValuesInRegion (ExtractChannel img j) region)
                 k rangeMin rangeMax"
  have char: "Compute1DConcatenatedHistogramOfMultiChannelImage ty img region k rangeMin rangeMax = Inr H \<longleftrightarrow>
      (\<exists>hs. length hs = ?C \<and> (\<forall>j < ?C. ?S j = Inr (hs ! j)) \<and> H = concat hs)"
    using Compute1DConcatenatedHistogramOfMultiChannelImage_loop_char[of ty img region k rangeMin rangeMax 0 "[]" H]
    by (simp add: Compute1DConcatenatedHistogramOfMultiChannelImage_def)
  have "length H = ?C * k \<and> (\<forall>j < ?C. ?S j = Inr (take k (drop (k * j) H)))"
    if "Compute1DConcatenatedHistogramOfMultiChannelImage ty img region k rangeMin rangeMax = Inr H"
  proof -
    from that char obtain hs where hs: "length hs = ?C" "\<forall>j < ?C. ?S j = Inr (hs ! j)"
      "H = concat hs" by blast
    have len: "\<forall>h \<in> set hs. length h = k"
    proof
      fix h assume "h \<in> set hs"
      then obtain j where "j < length hs" "hs ! j = h" by (auto simp: in_set_conv_nth)
      with hs(1,2) have "?S j = Inr h" by auto
      then show "length h = k" by (rule ScalarHistogram_length)
    qed
    have "length H = ?C * k" using length_concat_const[OF len] hs(1,3) by simp
    moreover have "\<forall>j < ?C. ?S j = Inr (take k (drop (k * j) H))"
      using concat_slice[OF len] hs by simp
    ultimately show ?thesis by blast
  qed
  with char show ?thesis by blast
qed

theorem Compute1DConcatenatedHistogramOfMultiChannelImage_concat_witness:
  "Compute1DConcatenatedHistogramOfMultiChannelImage T_unsigned_char
      \<lparr>NumberOfComponentsPerPixel = 3, GetPixel = (\<lambda>(x, y). [100 * real_of_int x, 200, 255])\<rparr>
      \<lparr>Index = (0, 0), Size = (2, 1)\<rparr> 2 0 255 = Inr [2, 0, 0, 2, 0, 2]
   \<and> length [2, 0, 0, 2, 0, 2 :: real] = 3 * 2
   \<and> ScalarHistogram T_unsigned_char (GetPixelValuesInRegion (ExtractChannel
        \<lparr>NumberOfComponentsPerPixel = 3, GetPixel = (\<lambda>(x, y). [100 * real_of_int x, 200, 255])\<rparr> 0)
        \<lparr>Index = (0, 0), Size = (2, 1)\<rparr>) 2 0 255 = Inr [2, 0]"
proof -
  let ?img = "\<lparr>NumberOfComponentsPerPixel = 3, GetPixel = (\<lambda>(x, y). [100 * real_of_int x, 200, 255])\<rparr>"
  let ?r = "\<lparr>Index = (0, 0), Size = (2, 1)\<rparr>"
  have p: "GetPixelValuesInRegion (ExtractChannel ?img 0) ?r = [0, 100]"
    "GetPixelValuesInRegion (ExtractChannel ?img 1) ?r = [200, 200]"
    "GetPixelValuesInRegion (ExtractChannel ?img 2) ?r = [255, 255]"
    by (simp_all add: GetPixelValuesInRegion_def ExtractChannel_def region_indices_def
        numeral_eq_Suc)
  have s: "ScalarHistogram T_unsigned_char [0, 100] 2 0 255 = Inr [2, 0]"
    "ScalarHistogram T_unsigned_char [200, 200] 2 0 255 = Inr [0, 2]"
    "ScalarHistogram T_unsigned_char [255, 255] 2 0 255 = Inr [0, 2]"
    by (simp_all add: eval_defs float32_eval[of 6] float32_eval[of "- 1"] float32_eval[of 0]
        numeral_eq_Suc)
  have r: "Compute1DConcatenatedHistogramOfMultiChannelImage T_unsigned_char ?img ?r 2 0 255
      = Inr [2, 0, 0, 2, 0, 2]"
    by (simp add: Compute1DConcatenatedHistogramOfMultiChannelImage_def
        Compute1DConcatenatedHistogramOfMultiChannelImage_loop.simps Let_def p s
        del: One_nat_def)
  from Compute1DConcatenatedHistogramOfMultiChannelImage_concat[of T_unsigned_char ?img ?r 2 0 255 "[2, 0, 0, 2, 0, 2]"] r
  have a: "\<forall>j < 3. ScalarHistogram T_unsigned_char (GetPixelValuesInRegion (ExtractChannel ?img j) ?r) 2 0 255
           = Inr (take 2 (drop (2 * j) [2, 0, 0, 2, 0, 2]))" by simp
  from a[rule_format, of 0]
  have "ScalarHistogram T_unsigned_char (GetPixelValuesInRegion (ExtractChannel ?img 0) ?r) 2 0 255
           = Inr [2, 0]" by simp
  then show ?thesis using r by simp
qed

section \<open>Properties of HistogramIntersection\<close>









text \<open>
  C8. For two histograms of unequal lengths \<open>HistogramIntersection\<close> writes the line
  \<^verbatim>\<open>Histograms must be the same size!\<close> to \<^verbatim>\<open>std::cerr\<close> and returns 0. The function has
  no \<^verbatim>\<open>throw\<close>, and its result in the model is never an error.
\<close>

theorem HistogramIntersection_size_mismatch:
  assumes "length h1 \<noteq> length h2"
  shows "HistogramIntersection h1 h2 = (''Histograms must be the same size!'' @ [CHR 0x0A], Finite 0)"
  using assms by (simp add: HistogramIntersection_def)

theorem HistogramIntersection_size_mismatch_witness:
  "length [1, 2 :: real] \<noteq> length [1 :: real]
   \<and> HistogramIntersection [1, 2] [1] = (''Histograms must be the same size!'' @ [CHR 0x0A], Finite 0)"
  using HistogramIntersection_size_mismatch[of "[1, 2]" "[1]"] by simp

section \<open>Properties of WriteHistogram\<close>

lemma decimal_small: "n < 10 \<Longrightarrow> decimal n = [digit_char n]"
  by (simp add: decimal.simps)

lemma decimal_large: "10 \<le> n \<Longrightarrow> decimal n = decimal (n div 10) @ [digit_char (n mod 10)]"
  by (subst decimal.simps) simp

lemma WriteHistogram_loop_text:
  "WriteHistogram_loop put histogram i fout
   = fout @ concat (map (\<lambda>b. put b @ '' '') (drop i histogram))"
proof (induction put histogram i fout rule: WriteHistogram_loop.induct)
  case (1 put histogram i fout)
  show ?case
  proof (cases "i < length histogram")
    case True
    then have "drop i histogram = histogram ! i # drop (i + 1) histogram"
      by (simp add: Cons_nth_drop_Suc)
    with "1.IH"[OF True] True show ?thesis
      by (subst WriteHistogram_loop.simps) simp
  next
    case False
    then show ?thesis by (subst WriteHistogram_loop.simps) simp
  qed
qed

lemma WriteHistogram_text:
  "WriteHistogram put histogram filename files filename
   = Some (concat (map (\<lambda>b. put b @ '' '') histogram))"
  by (simp add: WriteHistogram_def WriteHistogram_loop_text)

lemma digit_cases:
  assumes "d < (10::nat)"
  shows "d = 0 \<or> d = 1 \<or> d = 2 \<or> d = 3 \<or> d = 4 \<or> d = 5 \<or> d = 6 \<or> d = 7 \<or> d = 8 \<or> d = 9"
  using assms by arith

lemma digit_char_props:
  assumes "d < 10"
  shows "is_digit (digit_char d)" and "digit_char d \<noteq> CHR '' ''" and "digit_value (digit_char d) = d"
  using digit_cases[OF assms]
  by (auto simp: digit_char_def is_digit_def digit_value_def)

lemma read_decimal_snoc: "read_decimal (ds @ [c]) = 10 * read_decimal ds + digit_value c"
  by (simp add: read_decimal_def)

lemma decimal_props:
  "decimal n \<noteq> [] \<and> list_all is_digit (decimal n) \<and> CHR '' '' \<notin> set (decimal n)
   \<and> read_decimal (decimal n) = n"
proof (induction n rule: decimal.induct)
  case (1 n)
  show ?case
  proof (cases "n < 10")
    case True
    then show ?thesis
      using digit_char_props[of n]
      by (simp add: decimal_small read_decimal_def)
  next
    case False
    then have m: "n mod 10 < 10" by simp
    from "1.IH"[OF False] False show ?thesis
      using digit_char_props[OF m]
      by (simp add: decimal_large read_decimal_snoc)
  qed
qed

lemma tokens_piece:
  "CHR '' '' \<notin> set ds \<Longrightarrow> cur @ ds \<noteq> [] \<Longrightarrow>
   tokens cur (ds @ CHR '' '' # rest) = (cur @ ds) # tokens [] rest"
  by (induction ds arbitrary: cur) auto

lemma tokens_decimals:
  "tokens [] (concat (map (\<lambda>c. decimal c @ '' '') counts)) = map decimal counts"
proof (induction counts)
  case Nil
  show ?case by simp
next
  case (Cons c counts)
  have "tokens [] (decimal c @ CHR '' '' # concat (map (\<lambda>c. decimal c @ '' '') counts))
        = ([] @ decimal c) # tokens [] (concat (map (\<lambda>c. decimal c @ '' '') counts))"
    by (rule tokens_piece) (simp_all add: decimal_props)
  with Cons.IH show ?case by simp
qed

lemma ReadHistogram_decimals:
  "ReadHistogram (concat (map (\<lambda>c. decimal c @ '' '') counts)) = Some counts"
proof -
  have "list_all (list_all is_digit) (map decimal counts)"
    by (induction counts) (simp_all add: decimal_props)
  moreover have "map read_decimal (map decimal counts) = counts"
    by (simp add: decimal_props map_idI)
  ultimately show ?thesis
    by (simp add: ReadHistogram_def tokens_decimals del: map_map)
qed

text \<open>
  C9, as amended. \<open>WriteHistogram\<close> leaves in the file the texts of the bin values in
  order, each followed by one space, and nothing else: no header and nothing after
  the last space. When every bin holds a whole number below one million, the text of
  a bin value is its decimal numeral, and reading the text back piece by piece gives
  the sequence of bin values again. The witness is the histogram \<open>[3, 0, 7, 2]\<close> with
  the text \<^verbatim>\<open>3 0 7 2 \<close>.
\<close>

theorem WriteHistogram_text_roundtrip:
  "WriteHistogram put histogram filename files filename
     = Some (concat (map (\<lambda>b. put b @ '' '') histogram))
   \<and> ((\<forall>c \<in> set counts. c < 1000000) \<longrightarrow>
        WriteHistogram ostream_float counts filename files filename
          = Some (concat (map (\<lambda>c. decimal c @ '' '') counts))
        \<and> ReadHistogram (concat (map (\<lambda>c. decimal c @ '' '') counts)) = Some counts)"
proof (intro conjI impI)
  show "WriteHistogram put histogram filename files filename
     = Some (concat (map (\<lambda>b. put b @ '' '') histogram))"
    by (rule WriteHistogram_text)
next
  assume "\<forall>c \<in> set counts. c < 1000000"
  then have "map (\<lambda>c. ostream_float c @ '' '') counts = map (\<lambda>c. decimal c @ '' '') counts"
    by (simp add: ostream_float_def)
  then show "WriteHistogram ostream_float counts filename files filename
          = Some (concat (map (\<lambda>c. decimal c @ '' '') counts))"
    by (simp only: WriteHistogram_text)
next
  show "ReadHistogram (concat (map (\<lambda>c. decimal c @ '' '') counts)) = Some counts"
    by (rule ReadHistogram_decimals)
qed

theorem WriteHistogram_text_roundtrip_witness:
  "list_all (\<lambda>c. c < 1000000) [3, 0, 7, 2 :: nat]
   \<and> WriteHistogram ostream_float [3, 0, 7, 2] ''histogram.txt'' Map.empty ''histogram.txt''
       = Some ''3 0 7 2 ''
   \<and> ReadHistogram ''3 0 7 2 '' = Some [3, 0, 7, 2]"
  using WriteHistogram_text_roundtrip[of ostream_float "[3, 0, 7, 2]" "''histogram.txt''" Map.empty
      "[3, 0, 7, 2]"]
  by (simp add: ostream_float_def decimal_small digit_char_def)

text \<open>
  C9, as stated, fails: it promises the way back for every histogram. The bin values
  1234567 and 1234570 are written with the same text, since a stream prints a
  \<^verbatim>\<open>float\<close> with six significant digits. No reading of the text can tell the
  two histograms apart, and \<open>ReadHistogram\<close> does not return the first.
\<close>

theorem WriteHistogram_roundtrip_counterexample:
  "WriteHistogram ostream_float [1234567] ''histogram.txt'' Map.empty ''histogram.txt''
     = Some ''1.23457e+06 ''
   \<and> WriteHistogram ostream_float [1234570] ''histogram.txt'' Map.empty ''histogram.txt''
     = Some ''1.23457e+06 ''
   \<and> ReadHistogram ''1.23457e+06 '' \<noteq> Some [1234567]"
  by (simp add: WriteHistogram_def WriteHistogram_loop.simps ostream_float_def scientific_def
      decimal_small decimal_large digit_char_def strip_trailing_zeros_def Let_def
      ReadHistogram_def is_digit_def)

end
